theory Spec2Isabelle
  imports Main
begin

section \<open>The API server of pkg/api/server.go\<close>

text \<open>
  The server translates RPC requests into calls against a runtime client (the
  capability provider).  The provider is an interface whose implementation is not
  part of the package, so it is a parameter of every definition below: a record of
  functions over a provider state \<open>'s\<close>.  Every server method threads that state
  and a log of the provider calls it made, in order, with the outcome of each.
\<close>

subsection \<open>Errors and panics\<close>

text \<open>
  A Go \<open>error\<close> value is either made from a message (\<open>fmt.Errorf\<close>, or any
  error the provider builds) or wraps a cause with a message (\<open>errors.Wrapf\<close>).
  A nil error is \<open>None\<close> of \<open>error option\<close>.
\<close>

datatype error = Errorf string | Wrapf error string

text \<open>The text of an error: \<open>errors.Wrapf\<close> puts its message before the cause's.\<close>

fun Error :: "error \<Rightarrow> string" where
  "Error (Errorf msg) = msg"
| "Error (Wrapf cause msg) = msg @ '': '' @ Error cause"

text \<open>The run-time panic of indexing a slice out of range.\<close>

datatype panic = IndexOutOfRange

subsection \<open>Data model\<close>

record Container =
  Name :: string
  Image :: string
  Tty :: bool

record ObjectMeta =
  PodName :: string
  Namespace :: string

record PodSpec =
  Containers :: "Container list"

record Pod =
  Metadata :: ObjectMeta
  Spec :: PodSpec

text \<open>
  \<open>metadata.MD\<close> is \<open>map[string][]string\<close>.  The attach stream handed to
  \<open>Attach\<close> carries the incoming context, whose metadata may be absent
  (\<open>FromIncomingContext\<close> then returns \<open>ok = false\<close>); \<open>StreamID\<close> stands for
  the identity of the stream object.
\<close>

type_synonym MD = "string \<rightharpoonup> string list"

record AttachServer =
  Context :: "MD option"
  StreamID :: nat

text \<open>
  \<open>stream.NewReader(server)\<close> and \<open>stream.NewWriter(server, stderr)\<close> wrap the
  duplex stream; the package that implements them is outside this fragment, so the
  wrappers are the constructor terms themselves.
\<close>

datatype Reader = NewReader AttachServer
datatype Writer = NewWriter AttachServer bool

record AttachIO =
  Stdin :: Reader
  Stdout :: Writer
  Stderr :: Writer

record SignalRequest =
  req_Namespace :: string
  req_ContainerID :: string
  req_Signal :: int

datatype SignalResponse = SignalResponse

subsection \<open>The progress tracker\<close>

text \<open>
  Modelled from the spec: package \<open>progress\<close> (\<open>ImageFetch\<close>, \<open>NewImageFetch\<close>,
  \<open>AllDone\<close>) is not in the fragment.  The spec gives an entry a container name, an
  image reference, a completion flag and optional counters; an entry is created
  when the container's pull begins and is marked complete on pull completion.
\<close>

record ImageFetch =
  ContainerID :: string
  FetchImage :: string
  Complete :: bool
  Counters :: "nat option"

definition NewImageFetch :: "string \<Rightarrow> string \<Rightarrow> ImageFetch" where
  "NewImageFetch containerID img =
     \<lparr>ContainerID = containerID, FetchImage = img, Complete = False, Counters = None\<rparr>"

definition AllDone :: "ImageFetch \<Rightarrow> ImageFetch" where
  "AllDone f = f\<lparr>Complete := True\<rparr>"

subsection \<open>The runtime client\<close>

text \<open>
  The four operations of \<open>runtime.Client\<close> that \<open>Create\<close>, \<open>Attach\<close> and
  \<open>Signal\<close> use.  Each takes the provider state and returns the error (or nil)
  and the new state.  \<open>PullImage\<close> is handed the tracker entry of the container
  as a progress sink; what it writes there is returned as the entry's new counters.
\<close>

record 's Client =
  PullImage :: "string \<Rightarrow> string \<Rightarrow> ImageFetch \<Rightarrow> 's \<Rightarrow> error option \<times> nat option \<times> 's"
  CreateContainer :: "Pod \<Rightarrow> Container \<Rightarrow> 's \<Rightarrow> error option \<times> 's"
  Attach :: "string \<Rightarrow> string \<Rightarrow> AttachIO \<Rightarrow> 's \<Rightarrow> error option \<times> 's"
  Signal :: "string \<Rightarrow> string \<Rightarrow> int \<Rightarrow> 's \<Rightarrow> error option \<times> 's"

datatype call =
    PullImageCall string string
  | CreateContainerCall Pod Container
  | AttachCall string string AttachIO
  | SignalCall string string int

text \<open>The state a containers-service method runs in: the provider and the call log.\<close>

record 's rt =
  cstate :: 's
  calls :: "(call \<times> error option) list"

subsection \<open>Attach and Signal\<close>

definition getMetadataValue :: "MD \<Rightarrow> string \<Rightarrow> panic + string" where
  "getMetadataValue md key =
     (case md key of
        Some val \<Rightarrow> (case val of [] \<Rightarrow> Inl IndexOutOfRange | v # _ \<Rightarrow> Inr v)
      | None \<Rightarrow> Inr '''')"

text \<open>
  \<open>Server.Attach\<close>.  Both metadata values are read before either is checked, as in
  the source's \<open>var\<close> block.  The result is a panic or the returned error (nil on
  success).
\<close>

definition Server_Attach ::
  "'s Client \<Rightarrow> AttachServer \<Rightarrow> 's rt \<Rightarrow> (panic + error option) \<times> 's rt" where
  "Server_Attach c server w =
     (case Context server of
        None \<Rightarrow> (Inr (Some (Errorf
          ''Incoming attach request don't have metadata. You must provide 'Namespace' and 'ContainerID' through metadata'')), w)
      | Some md \<Rightarrow>
         (case getMetadataValue md ''namespace'' of
            Inl p \<Rightarrow> (Inl p, w)
          | Inr namespace \<Rightarrow>
             (case getMetadataValue md ''container'' of
                Inl p \<Rightarrow> (Inl p, w)
              | Inr containerID \<Rightarrow>
                 if namespace = '''' then
                   (Inr (Some (Errorf ''You must define 'namespace' metadata'')), w)
                 else if containerID = '''' then
                   (Inr (Some (Errorf ''You must define 'container' metadata'')), w)
                 else
                   (let io = \<lparr>Stdin = NewReader server,
                              Stdout = NewWriter server False,
                              Stderr = NewWriter server True\<rparr>;
                        (err, s') = Attach c namespace containerID io (cstate w)
                    in (Inr err,
                        w\<lparr>cstate := s',
                          calls := calls w @ [(AttachCall namespace containerID io, err)]\<rparr>)))))"

text \<open>
  \<open>Server.Signal\<close>.  \<open>syscall.Signal(req.Signal)\<close> is a conversion between
  integer types, which keeps the number.
\<close>

definition Server_Signal ::
  "'s Client \<Rightarrow> SignalRequest \<Rightarrow> 's rt \<Rightarrow> (error + SignalResponse) \<times> 's rt" where
  "Server_Signal c req w =
     (let (err, s') = Signal c (req_Namespace req) (req_ContainerID req) (req_Signal req) (cstate w);
          w' = w\<lparr>cstate := s',
                 calls := calls w @
                   [(SignalCall (req_Namespace req) (req_ContainerID req) (req_Signal req), err)]\<rparr>
      in case err of
           Some e \<Rightarrow> (Inl e, w')
         | None \<Rightarrow> (Inr SignalResponse, w'))"

subsection \<open>Create: the pipeline and the progress broadcaster\<close>

text \<open>
  Modelled from the spec: the wire model and \<open>mapping.MapImageFetchProgressToAPIModel\<close>
  are not in the fragment.  A progress snapshot is the point-in-time view of every
  tracker entry, in the order of the collection.
\<close>

record ImageFetchProgress =
  api_ContainerID :: string
  api_Image :: string
  api_Resolved :: bool
  api_Counters :: "nat option"

definition MapImageFetchProgressToAPIModel :: "ImageFetch list \<Rightarrow> ImageFetchProgress list" where
  "MapImageFetchProgressToAPIModel ps =
     map (\<lambda>p. \<lparr>api_ContainerID = ContainerID p, api_Image = FetchImage p,
                api_Resolved = Complete p, api_Counters = Counters p\<rparr>) ps"

text \<open>
  The outbound stream \<open>pods.Pods_CreateServer\<close>: \<open>Send\<close> takes the images of a
  \<open>CreatePodStreamResponse\<close> and the stream's state, and may fail.
\<close>

record 't CreateServer =
  Send :: "ImageFetchProgress list \<Rightarrow> 't \<Rightarrow> error option \<times> 't"

text \<open>
  What the broadcaster goroutine and the deferred \<open>close(done)\<close> do is recorded as
  events, in order: a send, with the \<open>select\<close> case it came from, the images and
  the result of \<open>Send\<close>; and the closing of \<open>done\<close>.
\<close>

datatype branch = Tick | Final

datatype event = Broadcast branch "ImageFetchProgress list" "error option" | CloseDone

text \<open>
  The state of one \<open>Create\<close> call: the provider and its call log, the \<open>progresses\<close>
  slice, the stream, the events, the lines written by \<open>log.Warnf\<close>, and the number
  of scheduling points passed so far.
\<close>

record ('s, 't) create_state = "'s rt" +
  progresses :: "ImageFetch list"
  stream :: 't
  events :: "event list"
  warnings :: "string list"
  yields :: nat

text \<open>
  One send of the goroutine (the body of either \<open>select\<close> case): map the current
  \<open>progresses\<close>, send, and log a warning when the send fails.  The error goes
  nowhere else.
\<close>

definition broadcast ::
  "branch \<Rightarrow> 't CreateServer \<Rightarrow> ('s, 't) create_state \<Rightarrow> ('s, 't) create_state" where
  "broadcast br server w =
     (let images = MapImageFetchProgressToAPIModel (progresses w);
          (err, t') = Send server images (stream w);
          w' = w\<lparr>stream := t', events := events w @ [Broadcast br images err]\<rparr>
      in case err of
           Some e \<Rightarrow> w'\<lparr>warnings := warnings w' @
                        [''Error while sending create pod status back to client: '' @ Error e]\<rparr>
         | None \<Rightarrow> w')"

text \<open>\<open>n\<close> iterations of the goroutine's loop through the timer case.\<close>

primrec ticks :: "nat \<Rightarrow> 't CreateServer \<Rightarrow> ('s, 't) create_state \<Rightarrow> ('s, 't) create_state" where
  "ticks 0 server w = w"
| "ticks (Suc n) server w = ticks n server (broadcast Tick server w)"

text \<open>
  The goroutine runs concurrently with \<open>Create\<close>.  The interleaving is a parameter:
  \<open>sched i\<close> is the number of timer ticks that fire at the \<open>i\<close>-th scheduling
  point of the call.  Scheduling points stand between the statements of \<open>Create\<close>;
  a provider call is one step.
\<close>

definition yield ::
  "(nat \<Rightarrow> nat) \<Rightarrow> 't CreateServer \<Rightarrow> ('s, 't) create_state \<Rightarrow> ('s, 't) create_state" where
  "yield sched server w = (ticks (sched (yields w)) server w)\<lparr>yields := Suc (yields w)\<rparr>"

text \<open>
  \<open>s.client.PullImage(namespace, image, progress)\<close>, where \<open>progress\<close> points to
  the entry at index \<open>i\<close> of \<open>progresses\<close>.
\<close>

definition call_PullImage ::
  "'s Client \<Rightarrow> string \<Rightarrow> string \<Rightarrow> nat \<Rightarrow> ('s, 't) create_state
     \<Rightarrow> error option \<times> ('s, 't) create_state" where
  "call_PullImage c namespace img i w =
     (let (err, counters, s') = PullImage c namespace img (progresses w ! i) (cstate w)
      in (err, w\<lparr>cstate := s',
                 calls := calls w @ [(PullImageCall namespace img, err)],
                 progresses := (progresses w)[i := (progresses w ! i)\<lparr>Counters := counters\<rparr>]\<rparr>))"

definition call_CreateContainer ::
  "'s Client \<Rightarrow> Pod \<Rightarrow> Container \<Rightarrow> ('s, 't) create_state
     \<Rightarrow> error option \<times> ('s, 't) create_state" where
  "call_CreateContainer c pod container w =
     (let (err, s') = CreateContainer c pod container (cstate w)
      in (err, w\<lparr>cstate := s',
                 calls := calls w @ [(CreateContainerCall pod container, err)]\<rparr>))"

text \<open>
  The \<open>for\<close> loop of \<open>Create\<close> over \<open>pod.Spec.Containers\<close>, with its two early
  returns.  The new entry is appended before the pull; \<open>AllDone\<close> follows a
  successful pull.
\<close>

fun create_loop ::
  "(nat \<Rightarrow> nat) \<Rightarrow> 's Client \<Rightarrow> 't CreateServer \<Rightarrow> Pod \<Rightarrow> Container list
     \<Rightarrow> ('s, 't) create_state \<Rightarrow> error option \<times> ('s, 't) create_state" where
  "create_loop sched c server pod [] w = (None, w)"
| "create_loop sched c server pod (container # rest) w =
     (let w1 = yield sched server w;
          i = length (progresses w1);
          w2 = w1\<lparr>progresses := progresses w1 @ [NewImageFetch (Name container) (Image container)]\<rparr>;
          w3 = yield sched server w2;
          (err, w4) = call_PullImage c (Namespace (Metadata pod)) (Image container) i w3
      in case err of
           Some e \<Rightarrow> (Some (Wrapf e (''Failed to pull image ['' @ Image container @ '']'')), w4)
         | None \<Rightarrow>
            (let w5 = yield sched server w4;
                 w6 = w5\<lparr>progresses := (progresses w5)[i := AllDone (progresses w5 ! i)]\<rparr>;
                 w7 = yield sched server w6;
                 (err, w8) = call_CreateContainer c pod container w7
             in case err of
                  Some e \<Rightarrow>
                    (Some (Wrapf e (''Failed to create container ['' @ Name container @ '']'')), w8)
                | None \<Rightarrow> create_loop sched c server pod rest w8))"

text \<open>
  \<open>Server.Create\<close> for the pod that \<open>mapping.MapPodToInternalModel\<close> returns,
  from the provider state \<open>s\<close> and the stream state \<open>t\<close>.  The result is the
  error \<open>Create\<close> returns and the state once the goroutine has stopped: when
  \<open>Create\<close> returns, the deferred \<open>close(done)\<close> runs; timers that had fired
  may still be served; then the \<open>done\<close> case sends the last update and ends the
  loop.
\<close>

definition Server_Create ::
  "(nat \<Rightarrow> nat) \<Rightarrow> 's Client \<Rightarrow> 't CreateServer \<Rightarrow> Pod \<Rightarrow> 's \<Rightarrow> 't
     \<Rightarrow> error option \<times> ('s, 't) create_state" where
  "Server_Create sched c server pod s t =
     (let w0 = \<lparr>cstate = s, calls = [], progresses = [], stream = t, events = [],
                warnings = [], yields = 0\<rparr>;
          (err, w1) = create_loop sched c server pod (Containers (Spec pod)) w0;
          w2 = yield sched server w1;
          w3 = w2\<lparr>events := events w2 @ [CloseDone]\<rparr>;
          w4 = yield sched server w3;
          w5 = broadcast Final server w4
      in (err, w5))"

subsection \<open>Reading a run\<close>

text \<open>
  The provider calls of a container whose pull and create both succeed, and the
  messages of the two errors \<open>Create\<close> can return for a container.
\<close>

definition container_calls :: "Pod \<Rightarrow> Container \<Rightarrow> (call \<times> error option) list" where
  "container_calls pod container =
     [(PullImageCall (Namespace (Metadata pod)) (Image container), None),
      (CreateContainerCall pod container, None)]"

definition pull_failed :: "Container \<Rightarrow> string" where
  "pull_failed container = ''Failed to pull image ['' @ Image container @ '']''"

definition create_failed :: "Container \<Rightarrow> string" where
  "create_failed container = ''Failed to create container ['' @ Name container @ '']''"

text \<open>What an entry of the tracker says: container, image, completion flag.\<close>

definition entry_view :: "ImageFetch \<Rightarrow> string \<times> string \<times> bool" where
  "entry_view p = (ContainerID p, FetchImage p, Complete p)"

text \<open>Events by kind, and a send without its result.\<close>

fun is_tick :: "event \<Rightarrow> bool" where
  "is_tick (Broadcast Tick images r) = True"
| "is_tick e = False"







subsection \<open>Test doubles\<close>

text \<open>
  A provider double whose state counts the calls it received.  It fails to pull the
  image \<open>missing\<close>, to create a container named \<open>taken\<close>, and to signal the
  container \<open>gone\<close>; every pull reports a progress of 100.
\<close>

definition test_client :: "nat Client" where
  "test_client =
     \<lparr>PullImage = (\<lambda>ns img p n.
        (if img = ''missing'' then Some (Errorf ''no such image'') else None, Some 100, Suc n)),
      CreateContainer = (\<lambda>pod ct n.
        (if Name ct = ''taken'' then Some (Errorf ''name in use'') else None, Suc n)),
      Attach = (\<lambda>ns cid io n. (None, Suc n)),
      Signal = (\<lambda>ns cid sg n.
        (if cid = ''gone'' then Some (Errorf ''no such container'') else None, Suc n))\<rparr>"

text \<open>A stream double that counts the sends; the broken one fails every send.\<close>

definition test_stream :: "bool \<Rightarrow> nat CreateServer" where
  "test_stream broken =
     \<lparr>Send = (\<lambda>images n.
        (if broken then Some (Errorf ''transport is closing'') else None, Suc n))\<rparr>"

text \<open>A pod of two containers with the given names and images, in namespace \<open>ns1\<close>.\<close>

definition test_pod :: "string \<Rightarrow> string \<Rightarrow> string \<Rightarrow> string \<Rightarrow> Pod" where
  "test_pod name1 image1 name2 image2 =
     \<lparr>Metadata = \<lparr>PodName = ''pod'', Namespace = ''ns1''\<rparr>,
      Spec = \<lparr>Containers = [\<lparr>Name = name1, Image = image1, Tty = False\<rparr>,
                            \<lparr>Name = name2, Image = image2, Tty = False\<rparr>]\<rparr>\<rparr>"

text \<open>
  A schedule: two timer ticks fire at the second scheduling point (the first pull),
  one at the tenth (for a pod of two containers that are both created: after
  \<open>done\<close> is closed), none elsewhere.
\<close>

definition test_sched :: "nat \<Rightarrow> nat" where
  "test_sched i = (if i = 1 then 2 else if i = 9 then 1 else 0)"

section \<open>Attach and Signal: validation and forwarding\<close>

text \<open>
  Claim C10.  \<open>getMetadataValue\<close> indexes the first element of the value list
  without a bounds check: for a key mapped to the empty list it panics, and so does
  \<open>Attach\<close> when the metadata maps \<open>namespace\<close> or \<open>container\<close> to the
  empty list, instead of returning a validation error.  For a key that is absent it
  returns the empty string.
\<close>

theorem getMetadataValue_empty_list_panics:
  "getMetadataValue (md(key \<mapsto> [])) key = Inl IndexOutOfRange
   \<and> Server_Attach c \<lparr>Context = Some (md(''namespace'' \<mapsto> [])), StreamID = n\<rparr> w
       = (Inl IndexOutOfRange, w)
   \<and> Server_Attach c \<lparr>Context = Some (md(''container'' \<mapsto> [])), StreamID = n\<rparr> w
       = (Inl IndexOutOfRange, w)
   \<and> getMetadataValue (md(key := None)) key = Inr ''''"
  by (simp add: getMetadataValue_def Server_Attach_def split: option.splits list.splits sum.splits)

text \<open>
  Claim C4.  An \<open>Attach\<close> call whose \<open>namespace\<close> value is missing or empty
  is to return a descriptive error.  At metadata that carries \<open>namespace\<close> with
  no value the call panics; it returns no error.  The provider is not invoked.
\<close>

theorem Attach_empty_namespace_list_panics:
  "Server_Attach c \<lparr>Context = Some [''namespace'' \<mapsto> [], ''container'' \<mapsto> [''c1'']], StreamID = 0\<rparr> w
     = (Inl IndexOutOfRange, w)"
  by (simp add: getMetadataValue_def Server_Attach_def)

text \<open>
  Where no value list is empty the validation does what it is meant to do: absent
  metadata, an absent key or an empty first value gives an error made by
  \<open>fmt.Errorf\<close> and leaves the provider and the call log as they were.  And no
  invalid call, panicking or not, reaches the provider.
\<close>

lemma Attach_rejects_without_provider:
  assumes "Context server = None
           \<or> (\<exists>md. Context server = Some md
                 \<and> (md ''namespace'' \<in> {None} \<union> {Some ('''' # vs) | vs. True}
                    \<or> md ''container'' \<in> {None} \<union> {Some ('''' # vs) | vs. True})
                 \<and> md ''namespace'' \<noteq> Some [] \<and> md ''container'' \<noteq> Some [])"
  shows "\<exists>e. Server_Attach c server w = (Inr (Some (Errorf e)), w)"
  using assms
  by (auto simp: getMetadataValue_def Server_Attach_def split: option.splits list.splits sum.splits)

lemma Attach_invalid_never_invokes:
  assumes "Context server = None
           \<or> (\<exists>md. Context server = Some md
                 \<and> (md ''namespace'' \<in> {None, Some []} \<union> {Some ('''' # vs) | vs. True}
                    \<or> md ''container'' \<in> {None, Some []} \<union> {Some ('''' # vs) | vs. True}))"
  shows "snd (Server_Attach c server w) = w"
  using assms
  by (auto simp: getMetadataValue_def Server_Attach_def split: option.splits list.splits sum.splits)

text \<open>
  Claim C9.  A valid \<open>Attach\<close> call invokes the provider's attach primitive
  once, with the namespace and container of the metadata and an \<open>AttachIO\<close> of
  one reader over the stream and two writers over it, tagged \<open>False\<close> for the
  process output and \<open>True\<close> for the process error; what \<open>Attach\<close> returns
  is the provider's result.
\<close>

theorem Attach_valid_binds_three_channels:
  assumes "Context server = Some md"
    and "md ''namespace'' = Some (namespace # more_ns)"
    and "md ''container'' = Some (containerID # more_ids)"
    and "namespace \<noteq> ''''" and "containerID \<noteq> ''''"
    and "io = \<lparr>Stdin = NewReader server, Stdout = NewWriter server False,
               Stderr = NewWriter server True\<rparr>"
    and "Attach c namespace containerID io (cstate w) = (err, s')"
  shows "Server_Attach c server w =
           (Inr err, w\<lparr>cstate := s', calls := calls w @ [(AttachCall namespace containerID io, err)]\<rparr>)"
  using assms by (simp add: getMetadataValue_def Server_Attach_def)

theorem Attach_valid_binds_three_channels_witness:
  "Server_Attach test_client
     \<lparr>Context = Some [''namespace'' \<mapsto> [''ns1''], ''container'' \<mapsto> [''c1'']], StreamID = 7\<rparr>
     \<lparr>cstate = 0, calls = []\<rparr> =
   (Inr None,
    \<lparr>cstate = 1,
     calls = [(AttachCall ''ns1'' ''c1''
       \<lparr>Stdin = NewReader \<lparr>Context = Some [''namespace'' \<mapsto> [''ns1''], ''container'' \<mapsto> [''c1'']], StreamID = 7\<rparr>,
        Stdout = NewWriter \<lparr>Context = Some [''namespace'' \<mapsto> [''ns1''], ''container'' \<mapsto> [''c1'']], StreamID = 7\<rparr> False,
        Stderr = NewWriter \<lparr>Context = Some [''namespace'' \<mapsto> [''ns1''], ''container'' \<mapsto> [''c1'']], StreamID = 7\<rparr> True\<rparr>,
       None)]\<rparr>)"
  using Attach_valid_binds_three_channels
    [of "\<lparr>Context = Some [''namespace'' \<mapsto> [''ns1''], ''container'' \<mapsto> [''c1'']], StreamID = 7\<rparr>"
        "[''namespace'' \<mapsto> [''ns1''], ''container'' \<mapsto> [''c1'']]"
        "''ns1''" "[]" "''c1''" "[]" _ test_client "\<lparr>cstate = 0, calls = []\<rparr>" None 1, OF _ _ _ _ _ refl]
  by (simp add: test_client_def)

text \<open>
  Claim C6 says that a signal number which is no recognized OS signal is rejected
  before the provider is invoked.  \<open>Signal\<close> has no such check: the number 9999,
  which names no signal, reaches the provider and the call succeeds.
\<close>

theorem Signal_unrecognized_number_is_forwarded:
  "Server_Signal test_client
     \<lparr>req_Namespace = ''ns1'', req_ContainerID = ''c1'', req_Signal = 9999\<rparr>
     \<lparr>cstate = 0, calls = []\<rparr>
   = (Inr SignalResponse, \<lparr>cstate = 1, calls = [(SignalCall ''ns1'' ''c1'' 9999, None)]\<rparr>)"
  by (simp add: Server_Signal_def test_client_def)

text \<open>
  Claim C6, amended.  \<open>Signal\<close> does not validate the number: every call,
  whatever its signal number, invokes the provider once with that number, and the
  call fails exactly when the provider does.
\<close>

theorem Signal_always_invokes_provider:
  "map fst (calls (snd (Server_Signal c req w))) =
     map fst (calls w) @ [SignalCall (req_Namespace req) (req_ContainerID req) (req_Signal req)]
   \<and> (\<exists>e. fst (Server_Signal c req w) = Inl e) =
       (\<exists>e. fst (Signal c (req_Namespace req) (req_ContainerID req) (req_Signal req) (cstate w)) = Some e)"
  by (auto simp: Server_Signal_def Let_def split: prod.splits option.splits)

text \<open>
  Claim C7.  The provider receives the namespace, the container identifier and the
  signal number of the request as they are, and an error of the provider is returned
  as it is, not wrapped.
\<close>

theorem Signal_forwards_unchanged:
  assumes "Signal c (req_Namespace req) (req_ContainerID req) (req_Signal req) (cstate w) = (err, s')"
  shows "snd (Server_Signal c req w) =
           w\<lparr>cstate := s',
             calls := calls w @
               [(SignalCall (req_Namespace req) (req_ContainerID req) (req_Signal req), err)]\<rparr>
         \<and> (\<forall>e. err = Some e \<longrightarrow> fst (Server_Signal c req w) = Inl e)
         \<and> (err = None \<longrightarrow> fst (Server_Signal c req w) = Inr SignalResponse)"
  using assms by (auto simp: Server_Signal_def Let_def split: prod.splits option.splits)

theorem Signal_forwards_unchanged_witness:
  "Server_Signal test_client
      \<lparr>req_Namespace = ''ns1'', req_ContainerID = ''c1'', req_Signal = 9\<rparr> \<lparr>cstate = 0, calls = []\<rparr>
     = (Inr SignalResponse, \<lparr>cstate = 1, calls = [(SignalCall ''ns1'' ''c1'' 9, None)]\<rparr>)
   \<and> Server_Signal test_client
      \<lparr>req_Namespace = ''ns1'', req_ContainerID = ''gone'', req_Signal = 9\<rparr> \<lparr>cstate = 0, calls = []\<rparr>
     = (Inl (Errorf ''no such container''),
        \<lparr>cstate = 1, calls = [(SignalCall ''ns1'' ''gone'' 9, Some (Errorf ''no such container''))]\<rparr>)"
proof -
  have ok: "Signal test_client ''ns1'' ''c1'' 9 (0::nat) = (None, 1)"
    by (simp add: test_client_def)
  have bad: "Signal test_client ''ns1'' ''gone'' 9 (0::nat) = (Some (Errorf ''no such container''), 1)"
    by (simp add: test_client_def)
  from Signal_forwards_unchanged
    [of test_client "\<lparr>req_Namespace = ''ns1'', req_ContainerID = ''c1'', req_Signal = 9\<rparr>"
        "\<lparr>cstate = 0, calls = []\<rparr>" None 1]
    Signal_forwards_unchanged
    [of test_client "\<lparr>req_Namespace = ''ns1'', req_ContainerID = ''gone'', req_Signal = 9\<rparr>"
        "\<lparr>cstate = 0, calls = []\<rparr>" "Some (Errorf ''no such container'')" 1]
    ok bad
  show ?thesis by (simp add: prod_eq_iff)
qed

section \<open>Create: the pipeline\<close>

text \<open>
  The broadcaster touches the stream, the events and the warnings only; the
  provider calls touch neither.
\<close>

lemma broadcast_frame [simp]:
  "cstate (broadcast br server w) = cstate w"
  "calls (broadcast br server w) = calls w"
  "progresses (broadcast br server w) = progresses w"
  "yields (broadcast br server w) = yields w"
  by (simp_all add: broadcast_def Let_def split: prod.splits option.splits)

lemma ticks_frame [simp]:
  "cstate (ticks n server w) = cstate w"
  "calls (ticks n server w) = calls w"
  "progresses (ticks n server w) = progresses w"
  "yields (ticks n server w) = yields w"
  by (induction n arbitrary: w; simp)+

lemma yield_frame [simp]:
  "cstate (yield sched server w) = cstate w"
  "calls (yield sched server w) = calls w"
  "progresses (yield sched server w) = progresses w"
  "yields (yield sched server w) = Suc (yields w)"
  by (simp_all add: yield_def)

lemma call_PullImage_frame:
  assumes "call_PullImage c namespace img i w = (err, w')"
  shows "calls w' = calls w @ [(PullImageCall namespace img, err)]"
    and "\<exists>counters. progresses w' = (progresses w)[i := (progresses w ! i)\<lparr>Counters := counters\<rparr>]"
    and "events w' = events w" and "warnings w' = warnings w"
    and "stream w' = stream w" and "yields w' = yields w"
  using assms by (auto simp: call_PullImage_def Let_def split: prod.splits)

lemma call_CreateContainer_frame:
  assumes "call_CreateContainer c pod container w = (err, w')"
  shows "calls w' = calls w @ [(CreateContainerCall pod container, err)]"
    and "progresses w' = progresses w"
    and "events w' = events w" and "warnings w' = warnings w"
    and "stream w' = stream w" and "yields w' = yields w"
  using assms by (auto simp: call_CreateContainer_def Let_def split: prod.splits)

lemma entry_view_new [simp]:
  "entry_view (NewImageFetch n i) = (n, i, False)"
  "entry_view (p\<lparr>Counters := k\<rparr>) = entry_view p"
  "entry_view (AllDone p) = (ContainerID p, FetchImage p, True)"
  by (simp_all add: entry_view_def NewImageFetch_def AllDone_def)

text \<open>
  What the loop leaves behind, by induction on the containers still to do: either
  every container was pulled and created, or the loop returned at the first
  container whose pull or create failed.
\<close>

lemma create_loop_result:
  assumes "create_loop sched c server pod cts w = (r, w')"
  shows "(r = None
          \<and> map entry_view (progresses w') =
              map entry_view (progresses w) @ map (\<lambda>ct. (Name ct, Image ct, True)) cts
          \<and> calls w' = calls w @ concat (map (container_calls pod) cts))
       \<or> (\<exists>pre ct post cause. cts = pre @ ct # post
          \<and> (r = Some (Wrapf cause (pull_failed ct))
              \<and> map entry_view (progresses w') =
                  map entry_view (progresses w) @ map (\<lambda>ct. (Name ct, Image ct, True)) pre
                    @ [(Name ct, Image ct, False)]
              \<and> calls w' = calls w @ concat (map (container_calls pod) pre)
                    @ [(PullImageCall (Namespace (Metadata pod)) (Image ct), Some cause)]
            \<or> r = Some (Wrapf cause (create_failed ct))
              \<and> map entry_view (progresses w') =
                  map entry_view (progresses w) @ map (\<lambda>ct. (Name ct, Image ct, True)) pre
                    @ [(Name ct, Image ct, True)]
              \<and> calls w' = calls w @ concat (map (container_calls pod) pre)
                    @ [(PullImageCall (Namespace (Metadata pod)) (Image ct), None),
                       (CreateContainerCall pod ct, Some cause)]))"
  using assms
proof (induction cts arbitrary: w r w')
  case Nil
  then show ?case by simp
next
  case (Cons ct rest)
  define i where "i = length (progresses w)"
  define w3 where "w3 = yield sched server
    ((yield sched server w)\<lparr>progresses := progresses w @ [NewImageFetch (Name ct) (Image ct)]\<rparr>)"
  obtain err4 w4 where pull:
    "call_PullImage c (Namespace (Metadata pod)) (Image ct) i w3 = (err4, w4)"
    by fastforce
  have calls4: "calls w4 = calls w @ [(PullImageCall (Namespace (Metadata pod)) (Image ct), err4)]"
    using call_PullImage_frame(1)[OF pull] by (simp add: w3_def)
  have prog4: "map entry_view (progresses w4) = map entry_view (progresses w) @ [(Name ct, Image ct, False)]"
    using call_PullImage_frame(2)[OF pull] by (auto simp: w3_def i_def map_update)
  have len4: "length (progresses w4) = Suc i"
    using call_PullImage_frame(2)[OF pull] by (auto simp: w3_def i_def)
  show ?case
  proof (cases err4)
    case (Some e)
    with Cons.prems pull have "r = Some (Wrapf e (pull_failed ct))" "w' = w4"
      by (simp_all add: Let_def w3_def i_def pull_failed_def)
    with calls4 prog4 Some show ?thesis
      by (intro disjI2 exI[of _ "[]"] exI[of _ ct] exI[of _ rest] exI[of _ e]) simp
  next
    case None
    define w7 where "w7 = yield sched server
      ((yield sched server w4)\<lparr>progresses := (progresses w4)[i := AllDone (progresses w4 ! i)]\<rparr>)"
    obtain err8 w8 where create: "call_CreateContainer c pod ct w7 = (err8, w8)"
      by fastforce
    have calls8: "calls w8 = calls w @ [(PullImageCall (Namespace (Metadata pod)) (Image ct), None),
                                        (CreateContainerCall pod ct, err8)]"
      using call_CreateContainer_frame(1)[OF create] calls4 None by (simp add: w7_def)
    have nth4: "entry_view (progresses w4 ! i) = (Name ct, Image ct, False)"
      using prog4 len4 by (metis i_def length_map nth_append_length nth_map lessI)
    have prog8: "map entry_view (progresses w8) =
                   map entry_view (progresses w) @ [(Name ct, Image ct, True)]"
    proof -
      have "map entry_view (progresses w8) = (map entry_view (progresses w4))[i := entry_view (AllDone (progresses w4 ! i))]"
        using call_CreateContainer_frame(2)[OF create] by (simp add: w7_def map_update)
      also have "entry_view (AllDone (progresses w4 ! i)) = (Name ct, Image ct, True)"
        using nth4 by (simp add: entry_view_def AllDone_def)
      finally show ?thesis using prog4 by (simp add: i_def list_update_append)
    qed
    show ?thesis
    proof (cases err8)
      case (Some e)
      with Cons.prems pull create None have "r = Some (Wrapf e (create_failed ct))" "w' = w8"
        by (simp_all add: Let_def w3_def w7_def i_def create_failed_def)
      with calls8 prog8 Some show ?thesis
        by (intro disjI2 exI[of _ "[]"] exI[of _ ct] exI[of _ rest] exI[of _ e]) simp
    next
      case None': None
      with Cons.prems pull create None have rest: "create_loop sched c server pod rest w8 = (r, w')"
        by (simp add: Let_def w3_def w7_def i_def)
      have calls8': "calls w8 = calls w @ container_calls pod ct"
        using calls8 None' by (simp add: container_calls_def)
      from Cons.IH[OF rest] show ?thesis
      proof (elim disjE exE conjE)
        assume "r = None"
          and "map entry_view (progresses w') =
               map entry_view (progresses w8) @ map (\<lambda>ct. (Name ct, Image ct, True)) rest"
          and "calls w' = calls w8 @ concat (map (container_calls pod) rest)"
        with calls8' prog8 show ?thesis
          by simp
      next
        fix pre ct' post cause
        assume "rest = pre @ ct' # post"
          and "r = Some (Wrapf cause (pull_failed ct'))"
          and "map entry_view (progresses w') =
               map entry_view (progresses w8) @ map (\<lambda>ct. (Name ct, Image ct, True)) pre
                 @ [(Name ct', Image ct', False)]"
          and "calls w' = calls w8 @ concat (map (container_calls pod) pre)
                 @ [(PullImageCall (Namespace (Metadata pod)) (Image ct'), Some cause)]"
        with calls8' prog8 show ?thesis
          by (intro disjI2 exI[of _ "ct # pre"] exI[of _ ct'] exI[of _ post] exI[of _ cause])
             simp
      next
        fix pre ct' post cause
        assume "rest = pre @ ct' # post"
          and "r = Some (Wrapf cause (create_failed ct'))"
          and "map entry_view (progresses w') =
               map entry_view (progresses w8) @ map (\<lambda>ct. (Name ct, Image ct, True)) pre
                 @ [(Name ct', Image ct', True)]"
          and "calls w' = calls w8 @ concat (map (container_calls pod) pre)
                 @ [(PullImageCall (Namespace (Metadata pod)) (Image ct'), None),
                    (CreateContainerCall pod ct', Some cause)]"
        with calls8' prog8 show ?thesis
          by (intro disjI2 exI[of _ "ct # pre"] exI[of _ ct'] exI[of _ post] exI[of _ cause])
             simp
      qed
    qed
  qed
qed

lemma container_calls_succeed:
  "x \<in> set (concat (map (container_calls pod) cts)) \<Longrightarrow> snd x = None"
  by (auto simp: container_calls_def)

text \<open>
  The events of a run: each scheduling point adds sends of the timer case only.
\<close>

lemma events_broadcast:
  "events (broadcast br server w) =
     events w @ [Broadcast br (MapImageFetchProgressToAPIModel (progresses w))
       (fst (Send server (MapImageFetchProgressToAPIModel (progresses w)) (stream w)))]"
  by (simp add: broadcast_def Let_def split: prod.splits option.splits)

lemma events_ticks:
  "\<exists>ts. events (ticks n server w) = events w @ ts \<and> list_all is_tick ts \<and> length ts = n"
proof (induction n arbitrary: w)
  case 0
  then show ?case by simp
next
  case (Suc n)
  from Suc.IH[of "broadcast Tick server w"] obtain ts where
    "events (ticks n server (broadcast Tick server w)) = events (broadcast Tick server w) @ ts"
    "list_all is_tick ts" "length ts = n"
    by blast
  then show ?case
    by (intro exI[of _ "Broadcast Tick (MapImageFetchProgressToAPIModel (progresses w))
          (fst (Send server (MapImageFetchProgressToAPIModel (progresses w)) (stream w))) # ts"])
       (simp add: events_broadcast)
qed

lemma events_yield:
  "\<exists>ts. events (yield sched server w) = events w @ ts \<and> list_all is_tick ts
        \<and> length ts = sched (yields w)"
  using events_ticks[of "sched (yields w)" server w] by (simp add: yield_def)


text \<open>\<open>Create\<close> as a whole: the loop from the empty tracker, then the goroutine's end.\<close>

lemma Server_Create_unfold:
  assumes "Server_Create sched c server pod s t = (r, w)"
  obtains w1 ts late where
    "create_loop sched c server pod (Containers (Spec pod))
       \<lparr>cstate = s, calls = [], progresses = [], stream = t, events = [],
        warnings = [], yields = 0\<rparr> = (r, w1)"
    and "calls w = calls w1" and "progresses w = progresses w1" and "cstate w = cstate w1"
    and "events w = events w1 @ ts @ [CloseDone] @ late @
           [Broadcast Final (MapImageFetchProgressToAPIModel (progresses w1))
              (fst (Send server (MapImageFetchProgressToAPIModel (progresses w1))
                 (stream (yield sched server
                    ((yield sched server w1)\<lparr>events := events (yield sched server w1) @ [CloseDone]\<rparr>)))))]"
    and "list_all is_tick ts" and "list_all is_tick late"
proof -
  obtain r1 w1 where loop:
    "create_loop sched c server pod (Containers (Spec pod))
       \<lparr>cstate = s, calls = [], progresses = [], stream = t, events = [],
        warnings = [], yields = 0\<rparr> = (r1, w1)"
    by fastforce
  define w2 where "w2 = yield sched server w1"
  define w3 where "w3 = w2\<lparr>events := events w2 @ [CloseDone]\<rparr>"
  define w4 where "w4 = yield sched server w3"
  from assms loop have r: "r = r1" and w: "w = broadcast Final server w4"
    by (simp_all add: Server_Create_def Let_def w2_def w3_def w4_def)
  obtain ts where ts: "events w2 = events w1 @ ts" "list_all is_tick ts"
    using events_yield[of sched server w1] by (auto simp: w2_def)
  obtain late where late: "events w4 = events w3 @ late" "list_all is_tick late"
    using events_yield[of sched server w3] by (auto simp: w4_def)
  have "events w = events w1 @ ts @ [CloseDone] @ late @
           [Broadcast Final (MapImageFetchProgressToAPIModel (progresses w1))
              (fst (Send server (MapImageFetchProgressToAPIModel (progresses w1)) (stream w4)))]"
    using ts late by (simp add: w events_broadcast w3_def w4_def w2_def)
  moreover have "calls w = calls w1" "progresses w = progresses w1" "cstate w = cstate w1"
    by (simp_all add: w w4_def w3_def w2_def)
  ultimately show ?thesis
    using that[of w1 ts late] loop r ts(2) late(2) by (simp add: w4_def w3_def w2_def)
qed


lemma entry_view_fields:
  assumes "map entry_view ps = vs"
  shows "map ContainerID ps = map fst vs"
    and "map FetchImage ps = map (\<lambda>v. fst (snd v)) vs"
    and "map Complete ps = map (\<lambda>v. snd (snd v)) vs"
  using assms by (auto simp: entry_view_def)

text \<open>The definitions that evaluate a run of the test doubles.\<close>

lemmas run_defs = Server_Create_def Let_def yield_def broadcast_def call_PullImage_def
  call_CreateContainer_def test_client_def test_stream_def test_pod_def test_sched_def
  NewImageFetch_def AllDone_def MapImageFetchProgressToAPIModel_def






section \<open>Create: what a call leaves behind\<close>

text \<open>
  Claim C1 says that when container k fails, the tracker holds entries for the
  containers 1..k-1 only and none for k..N.  The entry of a container is appended
  before its pull, so the failing container has one: with two containers and the
  first failing (k = 1), the tracker holds the entry of the first, not complete when
  its pull failed and complete when its create failed.
\<close>

theorem Create_failed_container_has_entry:
  "(case Server_Create (\<lambda>i. 0) test_client (test_stream False)
           (test_pod ''a'' ''missing'' ''b'' ''img-b'') 0 0 of
      (r, w) \<Rightarrow>
        r = Some (Wrapf (Errorf ''no such image'') ''Failed to pull image [missing]'')
        \<and> progresses w = [\<lparr>ContainerID = ''a'', FetchImage = ''missing'', Complete = False,
                            Counters = Some 100\<rparr>])
   \<and> (case Server_Create (\<lambda>i. 0) test_client (test_stream False)
           (test_pod ''taken'' ''img-a'' ''b'' ''img-b'') 0 0 of
      (r, w) \<Rightarrow>
        r = Some (Wrapf (Errorf ''name in use'') ''Failed to create container [taken]'')
        \<and> progresses w = [\<lparr>ContainerID = ''taken'', FetchImage = ''img-a'', Complete = True,
                            Counters = Some 100\<rparr>])"
  by code_simp

text \<open>
  Claim C1, amended.  When \<open>Create\<close> returns an error, there is a container k
  (the one after \<open>pre\<close>) whose pull or create was the last provider call and
  failed.  The tracker then holds exactly the entries of the containers 1..k, in
  declared order; those of 1..k-1 are complete; the entry of k is not complete when
  the pull failed and complete when the create failed; the containers after k have
  no entry.  The error wraps the provider's and names the image of k (pull) or the
  name of k (create).
\<close>

theorem Create_failure_tracker_state:
  assumes "Server_Create sched c server pod s t = (Some e, w)"
  shows "\<exists>pre ct post cause. Containers (Spec pod) = pre @ ct # post
     \<and> map ContainerID (progresses w) = map Name (pre @ [ct])
     \<and> map FetchImage (progresses w) = map Image (pre @ [ct])
     \<and> (e = Wrapf cause (pull_failed ct)
          \<and> last (calls w) = (PullImageCall (Namespace (Metadata pod)) (Image ct), Some cause)
          \<and> map Complete (progresses w) = replicate (length pre) True @ [False]
        \<or> e = Wrapf cause (create_failed ct)
          \<and> last (calls w) = (CreateContainerCall pod ct, Some cause)
          \<and> map Complete (progresses w) = replicate (length pre) True @ [True])"
proof -
  from assms obtain w1 where
    loop: "create_loop sched c server pod (Containers (Spec pod))
       \<lparr>cstate = s, calls = [], progresses = [], stream = t, events = [],
        warnings = [], yields = 0\<rparr> = (Some e, w1)"
    and same: "calls w = calls w1" "progresses w = progresses w1"
    by (rule Server_Create_unfold)
  from create_loop_result[OF loop] obtain pre ct post cause where
    split: "Containers (Spec pod) = pre @ ct # post"
    and cases: "e = Wrapf cause (pull_failed ct)
        \<and> map entry_view (progresses w) = map (\<lambda>ct. (Name ct, Image ct, True)) pre @ [(Name ct, Image ct, False)]
        \<and> calls w = concat (map (container_calls pod) pre)
              @ [(PullImageCall (Namespace (Metadata pod)) (Image ct), Some cause)]
      \<or> e = Wrapf cause (create_failed ct)
        \<and> map entry_view (progresses w) = map (\<lambda>ct. (Name ct, Image ct, True)) pre @ [(Name ct, Image ct, True)]
        \<and> calls w = concat (map (container_calls pod) pre)
              @ [(PullImageCall (Namespace (Metadata pod)) (Image ct), None),
                 (CreateContainerCall pod ct, Some cause)]"
    using same by auto
  from cases show ?thesis
  proof (elim disjE conjE)
    assume e: "e = Wrapf cause (pull_failed ct)"
      and v: "map entry_view (progresses w) =
                map (\<lambda>ct. (Name ct, Image ct, True)) pre @ [(Name ct, Image ct, False)]"
      and cl: "calls w = concat (map (container_calls pod) pre)
              @ [(PullImageCall (Namespace (Metadata pod)) (Image ct), Some cause)]"
    show ?thesis
      using split e cl entry_view_fields[OF v]
      by (intro exI[of _ pre] exI[of _ ct] exI[of _ post] exI[of _ cause])
         (simp add: comp_def map_replicate_const)
  next
    assume e: "e = Wrapf cause (create_failed ct)"
      and v: "map entry_view (progresses w) =
                map (\<lambda>ct. (Name ct, Image ct, True)) pre @ [(Name ct, Image ct, True)]"
      and cl: "calls w = concat (map (container_calls pod) pre)
              @ [(PullImageCall (Namespace (Metadata pod)) (Image ct), None),
                 (CreateContainerCall pod ct, Some cause)]"
    show ?thesis
      using split e cl entry_view_fields[OF v]
      by (intro exI[of _ pre] exI[of _ ct] exI[of _ post] exI[of _ cause])
         (simp add: comp_def map_replicate_const)
  qed
qed

theorem Create_failure_tracker_state_witness:
  "\<exists>pre ct post cause.
     Containers (Spec (test_pod ''a'' ''img-a'' ''b'' ''missing'')) = pre @ ct # post
     \<and> map ContainerID (progresses (snd (Server_Create (\<lambda>i. 0) test_client (test_stream False)
           (test_pod ''a'' ''img-a'' ''b'' ''missing'') 0 0))) = map Name (pre @ [ct])
     \<and> map Complete (progresses (snd (Server_Create (\<lambda>i. 0) test_client (test_stream False)
           (test_pod ''a'' ''img-a'' ''b'' ''missing'') 0 0))) = replicate (length pre) True @ [False]"
proof -
  have "fst (Server_Create (\<lambda>i. 0) test_client (test_stream False)
           (test_pod ''a'' ''img-a'' ''b'' ''missing'') 0 0) =
     Some (Wrapf (Errorf ''no such image'') ''Failed to pull image [missing]'')"
    by code_simp
  then have run: "Server_Create (\<lambda>i. 0) test_client (test_stream False)
           (test_pod ''a'' ''img-a'' ''b'' ''missing'') 0 0 =
     (Some (Wrapf (Errorf ''no such image'') ''Failed to pull image [missing]''),
      snd (Server_Create (\<lambda>i. 0) test_client (test_stream False)
           (test_pod ''a'' ''img-a'' ''b'' ''missing'') 0 0))"
    by (simp add: prod_eq_iff)
  have nc: "Wrapf (Errorf ''no such image'') ''Failed to pull image [missing]'' \<noteq> Wrapf cause (create_failed ct)" for cause ct
    by (simp add: create_failed_def)
  from Create_failure_tracker_state[OF run] show ?thesis
    using nc by blast
qed

text \<open>
  Claim C2.  When a provider call of the run fails, it is a pull or a create of
  some container k and it is the last provider call: every call before it succeeded
  and nothing is attempted for the containers after k.  \<open>Create\<close> returns the
  provider's error wrapped with the image of k (pull) or the name of k (create).
  The tracker has k entries, so none for the containers after k, and the entries of
  the containers before k are complete.
\<close>

theorem Create_stops_at_first_failure:
  assumes "Server_Create sched c server pod s t = (r, w)"
    and "(failed, Some cause) \<in> set (calls w)"
  shows "\<exists>pre ct post. Containers (Spec pod) = pre @ ct # post
     \<and> (failed = PullImageCall (Namespace (Metadata pod)) (Image ct)
          \<and> r = Some (Wrapf cause (pull_failed ct))
          \<and> calls w = concat (map (container_calls pod) pre) @ [(failed, Some cause)]
        \<or> failed = CreateContainerCall pod ct
          \<and> r = Some (Wrapf cause (create_failed ct))
          \<and> calls w = concat (map (container_calls pod) pre)
                @ [(PullImageCall (Namespace (Metadata pod)) (Image ct), None),
                   (failed, Some cause)])
     \<and> length (progresses w) = Suc (length pre)
     \<and> map ContainerID (progresses w) = map Name (pre @ [ct])
     \<and> (\<forall>p \<in> set (take (length pre) (progresses w)). Complete p)"
proof -
  from assms(1) obtain w1 where
    loop: "create_loop sched c server pod (Containers (Spec pod))
       \<lparr>cstate = s, calls = [], progresses = [], stream = t, events = [],
        warnings = [], yields = 0\<rparr> = (r, w1)"
    and same: "calls w = calls w1" "progresses w = progresses w1"
    by (rule Server_Create_unfold)
  have no_failure: False if "calls w = concat (map (container_calls pod) cts)" for cts
    using container_calls_succeed[of "(failed, Some cause)" pod cts] assms(2) that by simp
  have complete: "length ps = Suc (length pre) \<and> map ContainerID ps = map Name (pre @ [ct])
       \<and> (\<forall>p \<in> set (take (length pre) ps). Complete p)"
    if "map entry_view ps = map (\<lambda>ct. (Name ct, Image ct, True)) pre @ [(Name ct, Image ct, b)]"
    for ps pre ct b
  proof -
    have len: "length ps = Suc (length pre)"
      using arg_cong[OF that, of length] by simp
    have "map Complete ps = replicate (length pre) True @ [b]"
      using entry_view_fields(3)[OF that] by (simp add: comp_def map_replicate_const)
    then have "take (length pre) (map Complete ps) = replicate (length pre) True"
      by simp
    then have "map Complete (take (length pre) ps) = replicate (length pre) True"
      by (simp add: take_map)
    then have "\<forall>p \<in> set (take (length pre) ps). Complete p"
      by (metis (no_types, lifting) image_eqI in_set_replicate set_map)
    with len entry_view_fields(1)[OF that] show ?thesis by (simp add: comp_def)
  qed
  from create_loop_result[OF loop] show ?thesis
  proof (elim disjE exE conjE)
    assume "calls w1 = calls \<lparr>cstate = s, calls = [], progresses = [], stream = t, events = [],
        warnings = [], yields = 0\<rparr> @ concat (map (container_calls pod) (Containers (Spec pod)))"
    then have "calls w = concat (map (container_calls pod) (Containers (Spec pod)))"
      using same by simp
    then show ?thesis using no_failure by blast
  next
    fix pre ct post cause'
    assume split: "Containers (Spec pod) = pre @ ct # post"
      and r: "r = Some (Wrapf cause' (pull_failed ct))"
      and v: "map entry_view (progresses w1) =
          map entry_view (progresses \<lparr>cstate = s, calls = [], progresses = [], stream = t,
             events = [], warnings = [], yields = 0\<rparr>)
            @ map (\<lambda>ct. (Name ct, Image ct, True)) pre @ [(Name ct, Image ct, False)]"
      and cl: "calls w1 = calls \<lparr>cstate = s, calls = [], progresses = [], stream = t,
             events = [], warnings = [], yields = 0\<rparr> @ concat (map (container_calls pod) pre)
            @ [(PullImageCall (Namespace (Metadata pod)) (Image ct), Some cause')]"
    from cl assms(2) same have "failed = PullImageCall (Namespace (Metadata pod)) (Image ct)"
      "cause = cause'"
      using container_calls_succeed[of "(failed, Some cause)" pod pre] by auto
    moreover have "map entry_view (progresses w) =
        map (\<lambda>ct. (Name ct, Image ct, True)) pre @ [(Name ct, Image ct, False)]"
      using v same by simp
    ultimately show ?thesis
      using split r cl same complete[of "progresses w" pre ct False]
      by (intro exI[of _ pre] exI[of _ ct] exI[of _ post]) simp
  next
    fix pre ct post cause'
    assume split: "Containers (Spec pod) = pre @ ct # post"
      and r: "r = Some (Wrapf cause' (create_failed ct))"
      and v: "map entry_view (progresses w1) =
          map entry_view (progresses \<lparr>cstate = s, calls = [], progresses = [], stream = t,
             events = [], warnings = [], yields = 0\<rparr>)
            @ map (\<lambda>ct. (Name ct, Image ct, True)) pre @ [(Name ct, Image ct, True)]"
      and cl: "calls w1 = calls \<lparr>cstate = s, calls = [], progresses = [], stream = t,
             events = [], warnings = [], yields = 0\<rparr> @ concat (map (container_calls pod) pre)
            @ [(PullImageCall (Namespace (Metadata pod)) (Image ct), None),
               (CreateContainerCall pod ct, Some cause')]"
    from cl assms(2) same have "failed = CreateContainerCall pod ct" "cause = cause'"
      using container_calls_succeed[of "(failed, Some cause)" pod pre] by auto
    moreover have "map entry_view (progresses w) =
        map (\<lambda>ct. (Name ct, Image ct, True)) pre @ [(Name ct, Image ct, True)]"
      using v same by simp
    ultimately show ?thesis
      using split r cl same complete[of "progresses w" pre ct True]
      by (intro exI[of _ pre] exI[of _ ct] exI[of _ post]) simp
  qed
qed

theorem Create_stops_at_first_failure_witness:
  "\<exists>pre ct post.
     Containers (Spec (test_pod ''a'' ''img-a'' ''taken'' ''img-b'')) = pre @ ct # post
     \<and> fst (Server_Create test_sched test_client (test_stream False)
          (test_pod ''a'' ''img-a'' ''taken'' ''img-b'') 0 0)
         = Some (Wrapf (Errorf ''name in use'') (create_failed ct))
     \<and> length (progresses (snd (Server_Create test_sched test_client (test_stream False)
          (test_pod ''a'' ''img-a'' ''taken'' ''img-b'') 0 0))) = Suc (length pre)"
proof -
  let ?pod = "test_pod ''a'' ''img-a'' ''taken'' ''img-b''"
  let ?run = "Server_Create test_sched test_client (test_stream False) ?pod 0 0"
  let ?ct = "\<lparr>Name = ''taken'', Image = ''img-b'', Tty = False\<rparr>"
  have "calls (snd ?run) =
      [(PullImageCall ''ns1'' ''img-a'', None),
       (CreateContainerCall ?pod \<lparr>Name = ''a'', Image = ''img-a'', Tty = False\<rparr>, None),
       (PullImageCall ''ns1'' ''img-b'', None),
       (CreateContainerCall ?pod ?ct, Some (Errorf ''name in use''))]"
    by (simp add: run_defs)
  then have failed:
    "(CreateContainerCall ?pod ?ct, Some (Errorf ''name in use'')) \<in> set (calls (snd ?run))"
    by simp
  have run: "?run = (fst ?run, snd ?run)" by simp
  from Create_stops_at_first_failure[OF run failed] show ?thesis
    by (elim exE conjE disjE) (simp, blast)
qed



section \<open>Create: the broadcaster\<close>


























end
